theory Spec2Isabelle
  imports Main
begin

section \<open>Match instance (models/match.instance)\<close>

text \<open>
  The classes \<open>Player\<close> and \<open>Model\<close> are imported by the source but are not part of
  it. Of a player only \<open>getUUID()\<close> and \<open>getShipPositionData()\<close> are called, so a
  player is the record of what these two getters return. The stored ship positions are
  read by \<open>isGameOverForPlayer\<close> as an object whose values carry a \<open>cells\<close> array,
  each cell carrying a \<open>hit\<close> flag; an object is the list of its entries in key order.
\<close>

record StoredCell =
  hit :: bool

record StoredShip =
  cells :: "StoredCell list"

record Player =
  getUUID :: string
  getShipPositionData :: "(string \<times> StoredShip) list option"

record MatchInstanceData =
  data_uuid :: string
  data_ready :: bool
  data_playerA :: string
  data_playerB :: "string option"

record MatchInstance =
  playerA :: string
  playerB :: "string option"
  ready :: bool
  uuid :: string

datatype match_error =
  NotAssociated string string
  \<comment> \<open>tried to find opponent for player .. in match .., but this player is not associated\<close>

text \<open>
  The constructor: \<open>playerB\<close>, \<open>ready\<close> and \<open>uuid\<close> are optional arguments
  (\<open>None\<close> is \<open>undefined\<close>); \<open>ready\<close> defaults to \<open>false\<close>. The base class
  \<open>Model\<close> receives the optional uuid; the identifier it assigns when none is
  given is the parameter \<open>fresh\<close>.
\<close>

definition MatchInstance_new ::
  "string \<Rightarrow> string option \<Rightarrow> bool option \<Rightarrow> string option \<Rightarrow> string \<Rightarrow> MatchInstance" where
  "MatchInstance_new a b r u fresh =
     \<lparr> playerA = a, playerB = b,
       ready = (case r of None \<Rightarrow> False | Some f \<Rightarrow> f),
       uuid = (case u of None \<Rightarrow> fresh | Some i \<Rightarrow> i) \<rparr>"

definition MatchInstance_from :: "MatchInstanceData \<Rightarrow> MatchInstance" where
  "MatchInstance_from d =
     MatchInstance_new (data_playerA d) (data_playerB d) (Some (data_ready d))
       (Some (data_uuid d)) []"

text \<open>JavaScript truthiness of a string: every string but the empty one.\<close>

definition truthy :: "string \<Rightarrow> bool" where
  "truthy s = (s \<noteq> [])"

definition addPlayer :: "MatchInstance \<Rightarrow> Player \<Rightarrow> MatchInstance" where
  "addPlayer m player =
     (let m1 = m\<lparr>playerB := Some (getUUID player)\<rparr> in
      if truthy (playerA m1) \<and> (case playerB m1 of None \<Rightarrow> False | Some b \<Rightarrow> truthy b)
      then m1\<lparr>ready := True\<rparr> else m1)"

definition isJoinable :: "MatchInstance \<Rightarrow> bool" where
  "isJoinable m = (playerB m = None)"

definition getPlayers :: "MatchInstance \<Rightarrow> string \<times> string option" where
  "getPlayers m = (playerA m, playerB m)"

definition getPlayerOpponentUUID ::
  "MatchInstance \<Rightarrow> Player \<Rightarrow> match_error + string option" where
  "getPlayerOpponentUUID m player =
     (let playerUUID = getUUID player in
      if playerUUID = playerA m then Inr (playerB m)
      else if Some playerUUID = playerB m then Inr (Some (playerA m))
      else Inl (NotAssociated playerUUID (uuid m)))"

definition toJSON :: "MatchInstance \<Rightarrow> MatchInstanceData" where
  "toJSON m = \<lparr> data_uuid = uuid m, data_ready = ready m,
                data_playerA = playerA m, data_playerB = playerB m \<rparr>"

text \<open>A sequence of \<open>addPlayer\<close> calls, first to last.\<close>

definition addPlayers :: "MatchInstance \<Rightarrow> Player list \<Rightarrow> MatchInstance" where
  "addPlayers m ps = foldl addPlayer m ps"

text \<open>
  Both participant identities are present: \<open>playerA\<close> is a mandatory string, so this
  is the second slot holding a value.
\<close>

definition bothPresent :: "MatchInstance \<Rightarrow> bool" where
  "bothPresent m = (playerB m \<noteq> None)"

section \<open>Outcome evaluation (isGameOverForPlayer)\<close>

text \<open>\<open>Object.values\<close> of an object: the values of its entries.\<close>

definition Object_values :: "(string \<times> 'v) list \<Rightarrow> 'v list" where
  "Object_values obj = map snd obj"

definition isGameOverForPlayer :: "Player \<Rightarrow> bool" where
  "isGameOverForPlayer player =
     (case getShipPositionData player of
        None \<Rightarrow> False
      | Some shipPositions \<Rightarrow>
          list_all (\<lambda>c. hit c = True) (concat (map cells (Object_values shipPositions))))"

section \<open>Cloud events (cloud-events/index)\<close>

datatype CloudEventType = Hit | Miss | Sink | Win | Lose | Bonus

fun CloudEventType_value :: "CloudEventType \<Rightarrow> string" where
  "CloudEventType_value Hit = ''hit''"
| "CloudEventType_value Miss = ''miss''"
| "CloudEventType_value Sink = ''sink''"
| "CloudEventType_value Win = ''win''"
| "CloudEventType_value Lose = ''lose''"
| "CloudEventType_value Bonus = ''bonus''"

record WinLoseEventData =
  game :: string
  match :: string
  player :: string

record 'd CloudEvent =
  ce_type :: string
  ce_source :: string
  ce_data :: 'd

definition source :: string where
  "source = ''battleship-wss''"

text \<open>
  \<open>sendEvent\<close> builds the cloud event and posts it to the broker; a failed post is
  only logged. What the function emits is the event it builds, which is its value here.
\<close>

definition sendEvent :: "CloudEventType \<Rightarrow> 'd \<Rightarrow> 'd CloudEvent" where
  "sendEvent t d = \<lparr> ce_type = CloudEventType_value t, ce_source = source, ce_data = d \<rparr>"

definition win :: "WinLoseEventData \<Rightarrow> WinLoseEventData CloudEvent" where
  "win d = sendEvent Win d"

definition lose :: "WinLoseEventData \<Rightarrow> WinLoseEventData CloudEvent" where
  "lose d = sendEvent Win d"

section \<open>Ship placement validation (validations)\<close>

subsection \<open>Data\<close>

datatype ShipType = Battleship | Destroyer | Submarine

fun ShipType_value :: "ShipType \<Rightarrow> string" where
  "ShipType_value Battleship = ''Battleship''"
| "ShipType_value Destroyer = ''Destroyer''"
| "ShipType_value Submarine = ''Submarine''"

datatype CellArea = Area4x1 | Area3x1 | Area2x1 | Area1x1

fun CellArea_value :: "CellArea \<Rightarrow> string" where
  "CellArea_value Area4x1 = ''4x1''"
| "CellArea_value Area3x1 = ''3x1''"
| "CellArea_value Area2x1 = ''2x1''"
| "CellArea_value Area1x1 = ''1x1''"

text \<open>
  \<open>ShipData\<close>: the origin is the pair \<open>[x, y]\<close> (column, row). The orientation is the
  string the payload carries: the schema below admits strings other than the two
  values of the \<open>Orientation\<close> enum, and the code compares the string with
  \<open>Orientation.Horizontal\<close> only.
\<close>

record ShipData =
  origin :: "int \<times> int"
  orientation :: string

definition Vertical :: string where
  "Vertical = ''vertical''"

definition Horizontal :: string where
  "Horizontal = ''horizontal''"

text \<open>
  A placement payload is an object: its entries in key order. The model covers the
  payloads whose entries have the shape of \<open>ShipData\<close> with integer coordinates, under
  any keys; payloads of other shapes (a non-object, an origin that is no pair of
  integers, an orientation that is no string) are outside it. An object holds each of
  its keys once, which the theorems state as \<open>distinct (map fst p)\<close>.
\<close>

type_synonym payload = "(string \<times> ShipData) list"

definition ShipSize :: "(string \<times> CellArea) list" where
  "ShipSize =
     [(ShipType_value Battleship, Area4x1),
      (ShipType_value Destroyer, Area3x1),
      (ShipType_value Submarine, Area2x1)]"

text \<open>
  A JavaScript number that is either a natural number or \<open>NaN\<close> (\<open>None\<close>).
  \<open>parseInt\<close> on a string: the value of its leading decimal digits, \<open>NaN\<close> when there
  is none. \<open>split_x\<close> is \<open>v.split('x')\<close>.
\<close>

type_synonym jsnat = "nat option"

definition digit_val :: "char \<Rightarrow> nat" where
  "digit_val c = (of_char c :: nat) - of_char CHR ''0''"

definition is_digit :: "char \<Rightarrow> bool" where
  "is_digit c = ((of_char CHR ''0'' :: nat) \<le> of_char c \<and> (of_char c :: nat) \<le> of_char CHR ''9'')"

definition parseInt :: "string \<Rightarrow> jsnat" where
  "parseInt s =
     (case takeWhile is_digit s of
        [] \<Rightarrow> None
      | d # ds \<Rightarrow> Some (foldl (\<lambda>n c. 10 * n + digit_val c) 0 (d # ds)))"

fun split_x :: "string \<Rightarrow> string list" where
  "split_x [] = [[]]"
| "split_x (c # cs) =
     (if c = CHR ''x'' then [] # split_x cs
      else (case split_x cs of p # ps \<Rightarrow> (c # p) # ps | [] \<Rightarrow> [[c]]))"

definition js_add :: "jsnat \<Rightarrow> jsnat \<Rightarrow> jsnat" where
  "js_add a b = (case a of None \<Rightarrow> None | Some m \<Rightarrow> (case b of None \<Rightarrow> None | Some n \<Rightarrow> Some (m + n)))"

definition EXPECTED_OCCUPIED_SQUARES :: jsnat where
  "EXPECTED_OCCUPIED_SQUARES =
     foldl (\<lambda>total v. js_add total (parseInt (hd (split_x (CellArea_value v))))) (Some 0)
       (map snd ShipSize)"

text \<open>
  Modelled from the spec: \<open>getCellAreaWidthAndHeight\<close> (from \<open>./utils\<close>) is not in
  the source. The spec gives each ship type a fixed linear length (4, 3 and 2
  cells), which is the first number of its cell area, as \<open>EXPECTED_OCCUPIED_SQUARES\<close>
  reads it; the second number is the height. The result is the pair \<open>(x, y)\<close>.
\<close>

definition getCellAreaWidthAndHeight :: "CellArea \<Rightarrow> jsnat \<times> jsnat" where
  "getCellAreaWidthAndHeight a =
     (let parts = split_x (CellArea_value a) in (parseInt (parts ! 0), parseInt (parts ! 1)))"

text \<open>
  \<open>getCellAreaWidthAndHeight(ShipSize[shipType]).x\<close> for a key of the payload. A key
  outside the table gives \<open>undefined\<close>, on which the helper's result is not known;
  no payload that passes the schema has such a key (lemma \<open>schema_keys\<close>), and
  the model takes the size as not a number there.
\<close>

definition shipSizeX :: "string \<Rightarrow> jsnat" where
  "shipSizeX ship =
     (case map_of ShipSize ship of
        None \<Rightarrow> None
      | Some a \<Rightarrow> fst (getCellAreaWidthAndHeight a))"

subsection \<open>The schema\<close>

text \<open>
  The source states the schema with the Joi library and validates with
  \<open>abortEarly: false\<close>, \<open>allowUnknown: false\<close>: every violation is collected. On the
  payloads of the model the rules of the schema mean, by Joi's documentation:
  \<^item> \<open>.required()\<close>: a missing key is a violation (\<open>any.required\<close>);
  \<^item> \<open>allowUnknown: false\<close>: a key the object schema does not list is a violation
    (\<open>object.unknown\<close>);
  \<^item> \<open>Joi.array().min(2).max(2)\<close>: the origin has two items, as a pair has;
  \<^item> \<open>Joi.number().min(0).max(GAME_GRID_SIZE - 1)\<close> on each item of the origin:
    \<open>number.min\<close>, \<open>number.max\<close>;
  \<^item> \<open>Joi.string()\<close> rejects the empty string (\<open>string.empty\<close>); \<open>.allow(v, ..)\<close>
    adds \<open>v, ..\<close> to what the type accepts and restricts nothing (the exclusive
    list is \<open>.valid\<close>), so every non-empty string passes.
  A violation names the key of the ship and, for the origin, the index of the item.
\<close>

datatype violation =
  AnyRequired string
| ObjectUnknown string
| NumberMin string nat
| NumberMax string nat
| StringEmpty string

definition OriginItem_validate :: "nat \<Rightarrow> string \<Rightarrow> nat \<Rightarrow> int \<Rightarrow> violation list" where
  "OriginItem_validate N key i v =
     (if v < 0 then [NumberMin key i] else []) @
     (if v > int N - 1 then [NumberMax key i] else [])"

definition ShipSchema_validate :: "nat \<Rightarrow> string \<Rightarrow> ShipData \<Rightarrow> violation list" where
  "ShipSchema_validate N key ship =
     OriginItem_validate N key 0 (fst (origin ship)) @
     OriginItem_validate N key 1 (snd (origin ship)) @
     (if orientation ship = [] then [StringEmpty key] else [])"

definition schemaKeys :: "string list" where
  "schemaKeys = [ShipType_value Battleship, ShipType_value Destroyer, ShipType_value Submarine]"

definition ShipsLockedSchema_validate :: "nat \<Rightarrow> payload \<Rightarrow> violation list" where
  "ShipsLockedSchema_validate N p =
     concat (map (\<lambda>key. case map_of p key of
                           None \<Rightarrow> [AnyRequired key]
                         | Some ship \<Rightarrow> ShipSchema_validate N key ship) schemaKeys) @
     map ObjectUnknown (filter (\<lambda>key. key \<notin> set schemaKeys) (map fst p))"

subsection \<open>The occupancy grid\<close>

text \<open>
  A grid is a JavaScript array of arrays of numbers. A slot holds a number, \<open>NaN\<close>,
  or nothing (\<open>Hole\<close>, read as \<open>undefined\<close>): writing past the end of an array
  extends it.
\<close>

datatype slot = Num nat | NaN | Hole

type_synonym Grid = "slot list list"

datatype error =
  SchemaError "violation list"
| TypeError
| ShipSizeNaN
| OverEdge
| Overlapping nat nat
| OccupiedMismatch nat jsnat

text \<open>
  The errors: the Joi validation error with its details; the \<open>TypeError\<close> of
  reading a property of \<open>undefined\<close>; 'failed to parse ship size to a number';
  'a ship is over the edge of the board'; 'ships are overlapping at grid [j, i]';
  'n grid positions were occupied, but m was the expected value'.
\<close>

definition generateEmptyGridArray :: "nat \<Rightarrow> Grid" where
  "generateEmptyGridArray N = map (\<lambda>i. map (\<lambda>j. Num 0) [0..<N]) [0..<N]"

fun plus1 :: "slot \<Rightarrow> slot" where
  "plus1 (Num n) = Num (n + 1)"
| "plus1 NaN = NaN"
| "plus1 Hole = NaN"

text \<open>
  \<open>grid[row][col] += 1\<close>. Reading \<open>grid[row]\<close> outside the grid gives \<open>undefined\<close>,
  and reading its property throws. A negative \<open>col\<close> is no array index: the
  assignment sets a property that neither \<open>length\<close> nor any index sees. A \<open>col\<close> at
  or past the end reads \<open>undefined\<close>, and the assignment stores \<open>NaN\<close> there,
  extending the row.
\<close>

definition incrSlot :: "Grid \<Rightarrow> int \<Rightarrow> int \<Rightarrow> error + Grid" where
  "incrSlot grid row col =
     (if row < 0 \<or> int (length grid) \<le> row then Inl TypeError
      else
        (let r = grid ! nat row in
         if col < 0 then Inr grid
         else if nat col < length r
           then Inr (grid[nat row := r[nat col := plus1 (r ! nat col)]])
           else Inr (grid[nat row := r @ replicate (nat col - length r) Hole @ [NaN]])))"

text \<open>A loop whose body may throw: the first error ends it.\<close>

fun forEach :: "('a \<Rightarrow> 's \<Rightarrow> 'e + 's) \<Rightarrow> 'a list \<Rightarrow> 's \<Rightarrow> 'e + 's" where
  "forEach f [] s = Inr s"
| "forEach f (x # xs) s = (case f x s of Inl e \<Rightarrow> Inl e | Inr s' \<Rightarrow> forEach f xs s')"

definition populateGridWithShipData :: "jsnat \<Rightarrow> ShipData \<Rightarrow> Grid \<Rightarrow> error + Grid" where
  "populateGridWithShipData sz ship grid =
     (let rootX = fst (origin ship); rootY = snd (origin ship) in
      case sz of
        None \<Rightarrow> Inl ShipSizeNaN
      | Some n \<Rightarrow>
          forEach (\<lambda>i g.
              if orientation ship = Horizontal
              then incrSlot g rootY (rootX + int i)
              else incrSlot g (rootY + int i) rootX)
            [0..<n] grid)"

text \<open>The scan of one row from column \<open>j\<close> on, and of the rows from row \<open>i\<close> on.\<close>

fun gt1 :: "slot \<Rightarrow> bool" where
  "gt1 (Num n) = (n > 1)"
| "gt1 NaN = False"
| "gt1 Hole = False"

fun scanRow :: "slot list \<Rightarrow> nat \<Rightarrow> nat \<Rightarrow> nat \<Rightarrow> error + nat" where
  "scanRow [] j i occupiedSquares = Inr occupiedSquares"
| "scanRow (val # vals) j i occupiedSquares =
     (if gt1 val then Inl (Overlapping j i)
      else scanRow vals (Suc j) i
             (if val \<noteq> Num 0 then occupiedSquares + 1 else occupiedSquares))"

fun scanGrid :: "nat \<Rightarrow> Grid \<Rightarrow> nat \<Rightarrow> nat \<Rightarrow> error + nat" where
  "scanGrid N [] i occupiedSquares = Inr occupiedSquares"
| "scanGrid N (row # rows) i occupiedSquares =
     (if length row \<noteq> N then Inl OverEdge
      else (case scanRow row 0 i occupiedSquares of
              Inl e \<Rightarrow> Inl e
            | Inr occ \<Rightarrow> scanGrid N rows (Suc i) occ))"

subsection \<open>validateShipPlacement\<close>

text \<open>
  \<open>N\<close> is \<open>GAME_GRID_SIZE\<close>, a constant of \<open>./config\<close>. The loop over
  \<open>Object.keys(validatedPlacementData)\<close> reads the entry of each key: it visits the
  entries of the object in key order.
\<close>

definition validateShipPlacement :: "nat \<Rightarrow> payload \<Rightarrow> error + payload" where
  "validateShipPlacement N placementData =
     (case ShipsLockedSchema_validate N placementData of
        e # es \<Rightarrow> Inl (SchemaError (e # es))
      | [] \<Rightarrow>
         (case forEach (\<lambda>(ship, shipData) grid.
                   populateGridWithShipData (shipSizeX ship) shipData grid)
                 placementData (generateEmptyGridArray N) of
            Inl e \<Rightarrow> Inl e
          | Inr grid \<Rightarrow>
             (case scanGrid N grid 0 0 of
                Inl e \<Rightarrow> Inl e
              | Inr occupiedSquares \<Rightarrow>
                  if Some occupiedSquares \<noteq> EXPECTED_OCCUPIED_SQUARES
                  then Inl (OccupiedMismatch occupiedSquares EXPECTED_OCCUPIED_SQUARES)
                  else Inr placementData)))"

subsection \<open>The geometry in the words of the specification\<close>

text \<open>
  The cells of a ship of length \<open>n\<close>: from the origin in the positive column direction
  when horizontal, in the positive row direction otherwise. A cell is \<open>(column, row)\<close>.
\<close>

definition shipCells :: "nat \<Rightarrow> ShipData \<Rightarrow> (int \<times> int) list" where
  "shipCells n ship =
     map (\<lambda>i. if orientation ship = Horizontal
              then (fst (origin ship) + int i, snd (origin ship))
              else (fst (origin ship), snd (origin ship) + int i)) [0..<n]"

definition keyLength :: "string \<Rightarrow> nat" where
  "keyLength key =
     (if key = ''Battleship'' then 4 else if key = ''Destroyer'' then 3
      else if key = ''Submarine'' then 2 else 0)"

definition entryCells :: "string \<times> ShipData \<Rightarrow> (int \<times> int) list" where
  "entryCells e = shipCells (keyLength (fst e)) (snd e)"

definition onBoard :: "nat \<Rightarrow> int \<times> int \<Rightarrow> bool" where
  "onBoard N c = (0 \<le> fst c \<and> fst c < int N \<and> 0 \<le> snd c \<and> snd c < int N)"

subsection \<open>Notions used in the proofs\<close>

text \<open>
  \<open>grid[row][col] += 1\<close> at a cell \<open>(column, row)\<close>; the cells of all ships of a payload
  in the order the code visits them; a grid whose slots all hold numbers, as the
  matrix of these numbers; a matrix of \<open>N\<close> rows of length \<open>N\<close>; the sum of its entries;
  one entry incremented.
\<close>

definition incrAt :: "int \<times> int \<Rightarrow> Grid \<Rightarrow> error + Grid" where
  "incrAt c g = incrSlot g (snd c) (fst c)"

definition allCells :: "payload \<Rightarrow> (int \<times> int) list" where
  "allCells p = concat (map entryCells p)"

definition numGrid :: "nat list list \<Rightarrow> Grid" where
  "numGrid m = map (map Num) m"

definition squareN :: "nat \<Rightarrow> nat list list \<Rightarrow> bool" where
  "squareN N m = (length m = N \<and> (\<forall>row \<in> set m. length row = N))"

definition gridSum :: "nat list list \<Rightarrow> nat" where
  "gridSum m = sum_list (map sum_list m)"

definition bump :: "nat list list \<Rightarrow> nat \<Rightarrow> nat \<Rightarrow> nat list list" where
  "bump m r k = m[r := (m ! r)[k := m ! r ! k + 1]]"

section \<open>Properties of the match instance\<close>

lemma addPlayer_fields:
  "playerA (addPlayer m p) = playerA m"
  "playerB (addPlayer m p) = Some (getUUID p)"
  "uuid (addPlayer m p) = uuid m"
  "ready (addPlayer m p) = (ready m \<or> (truthy (playerA m) \<and> truthy (getUUID p)))"
  by (auto simp add: addPlayer_def Let_def)

lemma addPlayers_snoc: "addPlayers m (ps @ [p]) = addPlayer (addPlayers m ps) p"
  by (simp add: addPlayers_def)

lemma addPlayers_playerA: "playerA (addPlayers m ps) = playerA m"
proof (induction ps rule: rev_induct)
  case Nil
  show ?case by (simp add: addPlayers_def)
next
  case (snoc p ps)
  then show ?case by (simp add: addPlayers_snoc addPlayer_fields)
qed

text \<open>
  C6 (as stated): in every state produced by the constructor, by \<open>from\<close> or by
  \<open>addPlayer\<close> calls the readiness flag is true iff both identities are present.
  The constructor stores the flag it is given, \<open>false\<close> by default: built with both
  identities and no flag, the match has both identities and is not ready.
\<close>

theorem C6_constructor_not_ready_counterexample:
  "\<not> (ready (MatchInstance_new ''a'' (Some ''b'') None None ''m'')
        \<longleftrightarrow> bothPresent (MatchInstance_new ''a'' (Some ''b'') None None ''m''))"
  by (simp add: MatchInstance_new_def bothPresent_def)

lemma addPlayers_ready_iff:
  assumes "truthy (playerA m)"
    and "\<forall>p \<in> set ps. truthy (getUUID p)"
    and "ready m \<longleftrightarrow> bothPresent m"
  shows "ready (addPlayers m ps) \<longleftrightarrow> bothPresent (addPlayers m ps)"
  using assms(2)
proof (induction ps rule: rev_induct)
  case Nil
  show ?case
    using assms(3) by (simp add: addPlayers_def)
next
  case (snoc p ps)
  have "truthy (playerA (addPlayers m ps))"
    using assms(1) by (simp add: addPlayers_playerA)
  moreover have "truthy (getUUID p)"
    using snoc.prems by simp
  ultimately show ?case
    by (simp add: addPlayers_snoc addPlayer_fields bothPresent_def)
qed

text \<open>
  C6 (amended): when the constructor or \<open>from\<close> is given a readiness flag that agrees
  with the presence of the second identity (the default \<open>false\<close> with no second
  identity, in particular), then after any sequence of \<open>addPlayer\<close> calls, all
  identities being non-empty strings, the readiness flag is true iff both identities
  are present.
\<close>

theorem C6_ready_iff_both_present:
  assumes "truthy a"
    and "\<forall>p \<in> set ps. truthy (getUUID p)"
    and "(case r of None \<Rightarrow> False | Some f \<Rightarrow> f) = (b \<noteq> None)"
  shows "(ready (addPlayers (MatchInstance_new a b r u fresh) ps)
          \<longleftrightarrow> bothPresent (addPlayers (MatchInstance_new a b r u fresh) ps)) \<and>
         (ready (addPlayers (MatchInstance_from
              \<lparr>data_uuid = i, data_ready = (b \<noteq> None), data_playerA = a, data_playerB = b\<rparr>) ps)
          \<longleftrightarrow> bothPresent (addPlayers (MatchInstance_from
              \<lparr>data_uuid = i, data_ready = (b \<noteq> None), data_playerA = a, data_playerB = b\<rparr>) ps))"
proof
  show "ready (addPlayers (MatchInstance_new a b r u fresh) ps)
          \<longleftrightarrow> bothPresent (addPlayers (MatchInstance_new a b r u fresh) ps)"
    using assms by (intro addPlayers_ready_iff) (simp_all add: MatchInstance_new_def bothPresent_def)
  show "ready (addPlayers (MatchInstance_from
              \<lparr>data_uuid = i, data_ready = (b \<noteq> None), data_playerA = a, data_playerB = b\<rparr>) ps)
          \<longleftrightarrow> bothPresent (addPlayers (MatchInstance_from
              \<lparr>data_uuid = i, data_ready = (b \<noteq> None), data_playerA = a, data_playerB = b\<rparr>) ps)"
    using assms(1,2)
    by (intro addPlayers_ready_iff)
      (simp_all add: MatchInstance_from_def MatchInstance_new_def bothPresent_def)
qed

theorem C6_ready_iff_both_present_witness:
  "ready (addPlayers (MatchInstance_new ''a'' None None None ''m'')
            [\<lparr>getUUID = ''b'', getShipPositionData = None\<rparr>]) \<and>
   bothPresent (addPlayers (MatchInstance_new ''a'' None None None ''m'')
            [\<lparr>getUUID = ''b'', getShipPositionData = None\<rparr>]) \<and>
   \<not> ready (addPlayers (MatchInstance_from
            \<lparr>data_uuid = ''m'', data_ready = False, data_playerA = ''a'', data_playerB = None\<rparr>) []) \<and>
   \<not> bothPresent (addPlayers (MatchInstance_from
            \<lparr>data_uuid = ''m'', data_ready = False, data_playerA = ''a'', data_playerB = None\<rparr>) [])"
proof -
  have a: "truthy ''a''" by (simp add: truthy_def)
  have b: "\<forall>p \<in> set [\<lparr>getUUID = ''b'', getShipPositionData = None\<rparr>]. truthy (getUUID p)"
    by (simp add: truthy_def)
  have c: "\<forall>p \<in> set ([] :: Player list). truthy (getUUID p)" by simp
  have r: "(case None of None \<Rightarrow> False | Some f \<Rightarrow> f) = ((None :: string option) \<noteq> None)"
    by simp
  have present: "bothPresent (addPlayers (MatchInstance_new ''a'' None None None ''m'')
            [\<lparr>getUUID = ''b'', getShipPositionData = None\<rparr>])"
    by (simp add: addPlayers_def addPlayer_fields bothPresent_def)
  have absent: "\<not> bothPresent (addPlayers (MatchInstance_from
            \<lparr>data_uuid = ''m'', data_ready = False, data_playerA = ''a'', data_playerB = None\<rparr>) [])"
    by (simp add: addPlayers_def bothPresent_def MatchInstance_from_def MatchInstance_new_def)
  from C6_ready_iff_both_present [OF a b r, of None "''m''" "''m''"] present
  have one: "ready (addPlayers (MatchInstance_new ''a'' None None None ''m'')
            [\<lparr>getUUID = ''b'', getShipPositionData = None\<rparr>])"
    by blast
  from C6_ready_iff_both_present [OF a c r, of None "''m''" "''m''"] absent
  have two: "\<not> ready (addPlayers (MatchInstance_from
            \<lparr>data_uuid = ''m'', data_ready = False, data_playerA = ''a'', data_playerB = None\<rparr>) [])"
    by simp
  from one present two absent show ?thesis by blast
qed

text \<open>
  C8: in a match holding participants \<open>a\<close> and \<open>b\<close>, the opponent lookup returns
  \<open>b\<close> for a player with identity \<open>a\<close>, \<open>a\<close> for a player with identity \<open>b\<close>, and
  throws the not-associated error for a player with any other identity.
\<close>

theorem C8_opponent_lookup:
  assumes "playerA m = a" and "playerB m = Some b"
  shows "(getUUID p = a \<longrightarrow> getPlayerOpponentUUID m p = Inr (Some b)) \<and>
         (getUUID p = b \<longrightarrow> getPlayerOpponentUUID m p = Inr (Some a)) \<and>
         (getUUID p \<noteq> a \<and> getUUID p \<noteq> b \<longrightarrow>
            getPlayerOpponentUUID m p = Inl (NotAssociated (getUUID p) (uuid m)))"
  using assms by (auto simp add: getPlayerOpponentUUID_def Let_def)

theorem C8_opponent_lookup_witness:
  "getPlayerOpponentUUID \<lparr>playerA = ''a'', playerB = Some ''b'', ready = True, uuid = ''m''\<rparr>
     \<lparr>getUUID = ''a'', getShipPositionData = None\<rparr> = Inr (Some ''b'') \<and>
   getPlayerOpponentUUID \<lparr>playerA = ''a'', playerB = Some ''b'', ready = True, uuid = ''m''\<rparr>
     \<lparr>getUUID = ''b'', getShipPositionData = None\<rparr> = Inr (Some ''a'') \<and>
   getPlayerOpponentUUID \<lparr>playerA = ''a'', playerB = Some ''b'', ready = True, uuid = ''m''\<rparr>
     \<lparr>getUUID = ''c'', getShipPositionData = None\<rparr> = Inl (NotAssociated ''c'' ''m'')"
  using C8_opponent_lookup
          [of "\<lparr>playerA = ''a'', playerB = Some ''b'', ready = True, uuid = ''m''\<rparr>" "''a''" "''b''"
              "\<lparr>getUUID = ''a'', getShipPositionData = None\<rparr>"]
        C8_opponent_lookup
          [of "\<lparr>playerA = ''a'', playerB = Some ''b'', ready = True, uuid = ''m''\<rparr>" "''a''" "''b''"
              "\<lparr>getUUID = ''b'', getShipPositionData = None\<rparr>"]
        C8_opponent_lookup
          [of "\<lparr>playerA = ''a'', playerB = Some ''b'', ready = True, uuid = ''m''\<rparr>" "''a''" "''b''"
              "\<lparr>getUUID = ''c'', getShipPositionData = None\<rparr>"]
  by simp

text \<open>
  C10: \<open>addPlayer\<close> always stores the player's identity in the second slot and leaves
  the first slot as it was; it has no failing branch, so on a match that is not
  joinable it replaces the second participant.
\<close>

theorem C10_addPlayer_overwrites:
  "playerB (addPlayer m p) = Some (getUUID p) \<and> playerA (addPlayer m p) = playerA m"
  by (simp add: addPlayer_def Let_def)

section \<open>Properties of the outcome evaluation\<close>

text \<open>
  C7: the loss predicate is false when the ship-position record is absent; when it is
  present, it is true iff the hit flag of every cell of every ship is true.
\<close>

theorem C7_loss_predicate:
  "isGameOverForPlayer p =
     (case getShipPositionData p of
        None \<Rightarrow> False
      | Some shipPositions \<Rightarrow>
          (\<forall>s \<in> set (Object_values shipPositions). \<forall>c \<in> set (cells s). hit c))"
  by (auto simp add: isGameOverForPlayer_def list_all_iff split: option.splits)

theorem C7_loss_predicate_witness:
  "isGameOverForPlayer
     \<lparr>getUUID = ''p'', getShipPositionData =
        Some [(''Submarine'', \<lparr>cells = [\<lparr>hit = True\<rparr>, \<lparr>hit = True\<rparr>]\<rparr>)]\<rparr> \<and>
   \<not> isGameOverForPlayer
     \<lparr>getUUID = ''p'', getShipPositionData =
        Some [(''Submarine'', \<lparr>cells = [\<lparr>hit = True\<rparr>, \<lparr>hit = False\<rparr>]\<rparr>)]\<rparr> \<and>
   \<not> isGameOverForPlayer \<lparr>getUUID = ''p'', getShipPositionData = None\<rparr>"
  using C7_loss_predicate
          [of "\<lparr>getUUID = ''p'', getShipPositionData =
                 Some [(''Submarine'', \<lparr>cells = [\<lparr>hit = True\<rparr>, \<lparr>hit = True\<rparr>]\<rparr>)]\<rparr>"]
        C7_loss_predicate
          [of "\<lparr>getUUID = ''p'', getShipPositionData =
                 Some [(''Submarine'', \<lparr>cells = [\<lparr>hit = True\<rparr>, \<lparr>hit = False\<rparr>]\<rparr>)]\<rparr>"]
        C7_loss_predicate [of "\<lparr>getUUID = ''p'', getShipPositionData = None\<rparr>"]
  by (simp add: Object_values_def)

text \<open>
  C2 (as stated): with a ship-position record that is present and holds no cell, the
  loss predicate is false. The code has no guard: \<open>every\<close> over no cells is true.
\<close>

theorem C2_no_cells_reports_loss_counterexample:
  "isGameOverForPlayer
     \<lparr>getUUID = ''p'', getShipPositionData = Some [(''Submarine'', \<lparr>cells = []\<rparr>)]\<rparr> \<noteq> False"
  by (simp add: isGameOverForPlayer_def Object_values_def)

text \<open>
  C2 (amended): with a ship-position record that is present and holds zero cells in
  total, the loss predicate returns true.
\<close>

theorem C2_no_cells_is_loss:
  assumes "getShipPositionData p = Some shipPositions"
    and "concat (map cells (Object_values shipPositions)) = []"
  shows "isGameOverForPlayer p = True"
proof -
  have "list_all (\<lambda>c. hit c = True) (concat (map cells (Object_values shipPositions)))"
    unfolding assms(2) by simp
  then show ?thesis
    using assms(1) by (simp add: isGameOverForPlayer_def)
qed

theorem C2_no_cells_is_loss_witness:
  "isGameOverForPlayer \<lparr>getUUID = ''p'', getShipPositionData = Some []\<rparr> = True"
  using C2_no_cells_is_loss [of "\<lparr>getUUID = ''p'', getShipPositionData = Some []\<rparr>" "[]"]
  by (simp add: Object_values_def)

section \<open>Properties of the cloud events\<close>

text \<open>
  C9: for every input, the event that \<open>lose\<close> emits has the type of the event that
  \<open>win\<close> emits, the win type, and not the lose type.
\<close>

theorem C9_lose_emits_win_type:
  "ce_type (lose d) = ce_type (win d) \<and>
   ce_type (lose d) = CloudEventType_value Win \<and>
   ce_type (lose d) \<noteq> CloudEventType_value Lose"
  by (simp add: lose_def win_def sendEvent_def)

section \<open>Properties of the placement validation\<close>

subsection \<open>The schema and the ship sizes\<close>

lemma schemaKeys_simp: "schemaKeys = [''Battleship'', ''Destroyer'', ''Submarine'']"
  by (simp add: schemaKeys_def)

lemma EXPECTED_9: "EXPECTED_OCCUPIED_SQUARES = Some 9"
  by (simp add: EXPECTED_OCCUPIED_SQUARES_def ShipSize_def js_add_def parseInt_def is_digit_def digit_val_def)

lemma shipSizeX_key: "k \<in> set schemaKeys \<Longrightarrow> shipSizeX k = Some (keyLength k)"
  by (auto simp add: schemaKeys_simp shipSizeX_def ShipSize_def getCellAreaWidthAndHeight_def
      keyLength_def parseInt_def is_digit_def digit_val_def)

lemma schema_keys:
  assumes "ShipsLockedSchema_validate N p = []"
  shows "set (map fst p) = set schemaKeys"
proof
  show "set (map fst p) \<subseteq> set schemaKeys"
    using assms by (auto simp add: ShipsLockedSchema_validate_def filter_empty_conv)
  show "set schemaKeys \<subseteq> set (map fst p)"
  proof
    fix k assume k: "k \<in> set schemaKeys"
    have "map_of p k \<noteq> None"
      using assms k by (auto simp add: ShipsLockedSchema_validate_def split: option.splits)
    then show "k \<in> set (map fst p)"
      by (simp add: map_of_eq_None_iff)
  qed
qed

lemma schema_entry:
  assumes "ShipsLockedSchema_validate N p = []" and "distinct (map fst p)"
    and "(k, s) \<in> set p"
  shows "ShipSchema_validate N k s = []"
proof -
  have k: "k \<in> set schemaKeys"
    using schema_keys [OF assms(1)] assms(3) by force
  have "map_of p k = Some s"
    using assms(2,3) by simp
  then show ?thesis
    using assms(1) k by (auto simp add: ShipsLockedSchema_validate_def)
qed

lemma schema_origin:
  assumes "ShipSchema_validate N k s = []"
  shows "0 \<le> fst (origin s) \<and> fst (origin s) \<le> int N - 1 \<and>
         0 \<le> snd (origin s) \<and> snd (origin s) \<le> int N - 1 \<and> orientation s \<noteq> []"
  using assms by (auto simp add: ShipSchema_validate_def OriginItem_validate_def split: if_splits)

lemma forEach_append:
  "forEach f (xs @ ys) s = (case forEach f xs s of Inl e \<Rightarrow> Inl e | Inr s' \<Rightarrow> forEach f ys s')"
  by (induction xs arbitrary: s) (auto split: sum.splits)

lemma forEach_map: "forEach f (map h xs) s = forEach (\<lambda>x. f (h x)) xs s"
  by (induction xs arbitrary: s) (auto split: sum.splits)

lemma forEach_cong:
  "(\<And>x s. x \<in> set xs \<Longrightarrow> f x s = g x s) \<Longrightarrow> forEach f xs s = forEach g xs s"
  by (induction xs arbitrary: s) (auto split: sum.splits)

lemma forEach_concat:
  "forEach (\<lambda>x s. forEach f (h x) s) xs s = forEach f (concat (map h xs)) s"
  by (induction xs arbitrary: s) (auto simp add: forEach_append split: sum.splits)

lemma populate_cells:
  "populateGridWithShipData (Some n) ship g = forEach incrAt (shipCells n ship) g"
  by (cases "orientation ship = Horizontal")
    (simp_all add: populateGridWithShipData_def shipCells_def forEach_map incrAt_def [abs_def] Let_def)

lemma populate_all:
  assumes "set (map fst p) \<subseteq> set schemaKeys"
  shows "forEach (\<lambda>(ship, shipData) grid.
            populateGridWithShipData (shipSizeX ship) shipData grid) p g
         = forEach incrAt (allCells p) g"
proof -
  have "forEach (\<lambda>(ship, shipData) grid.
            populateGridWithShipData (shipSizeX ship) shipData grid) p g
        = forEach (\<lambda>e grid. forEach incrAt (entryCells e) grid) p g"
  proof (rule forEach_cong)
    fix x s assume "x \<in> set p"
    then have "fst x \<in> set schemaKeys" using assms by auto
    then show "(case x of (ship, shipData) \<Rightarrow> \<lambda>grid.
            populateGridWithShipData (shipSizeX ship) shipData grid) s
              = forEach incrAt (entryCells x) s"
      by (cases x) (simp add: shipSizeX_key populate_cells entryCells_def)
  qed
  then show ?thesis
    by (simp add: forEach_concat allCells_def)
qed


subsection \<open>Incrementing slots of a grid of numbers\<close>

lemma empty_grid_num: "generateEmptyGridArray N = numGrid (replicate N (replicate N 0))"
  by (simp add: generateEmptyGridArray_def numGrid_def map_replicate_const)

lemma squareN_replicate: "squareN N (replicate N (replicate N 0))"
  by (simp add: squareN_def)

lemma gridSum_replicate: "gridSum (replicate N (replicate N 0)) = 0"
  by (simp add: gridSum_def)

lemma sum_list_bump_row:
  assumes "k < length (xs :: nat list)"
  shows "sum_list (xs[k := Suc (xs ! k)]) = Suc (sum_list xs)"
proof -
  have "xs ! k \<le> sum_list xs"
    using assms by (simp add: member_le_sum_list)
  then show ?thesis
    using assms by (simp add: sum_list_update)
qed

lemma gridSum_bump:
  assumes "r < length m" and "k < length (m ! r)"
  shows "gridSum (bump m r k) = gridSum m + 1"
proof -
  have "map sum_list (bump m r k) = (map sum_list m)[r := Suc (map sum_list m ! r)]"
    using assms by (simp add: bump_def map_update sum_list_bump_row)
  moreover have "r < length (map sum_list m)"
    using assms by simp
  ultimately show ?thesis
    unfolding gridSum_def by (simp add: sum_list_bump_row del: length_map)
qed

lemma squareN_bump:
  assumes "squareN N m"
  shows "squareN N (bump m r k)"
proof (cases "r < length m")
  case True
  then have "length ((m ! r)[k := m ! r ! k + 1]) = N"
    using assms by (simp add: squareN_def)
  moreover have "set (bump m r k) \<subseteq> insert ((m ! r)[k := m ! r ! k + 1]) (set m)"
    unfolding bump_def by (rule set_update_subset_insert)
  ultimately show ?thesis
    using assms unfolding squareN_def bump_def by auto
next
  case False
  then have "bump m r k = m"
    by (simp add: bump_def list_update_beyond)
  then show ?thesis
    using assms by simp
qed

lemma nth_bump:
  assumes "squareN N m" and "r < N" and "k < N" and "r' < N" and "k' < N"
  shows "bump m r k ! r' ! k' = m ! r' ! k' + (if r' = r \<and> k' = k then 1 else 0)"
  using assms by (auto simp add: squareN_def bump_def nth_list_update)

lemma incrAt_numGrid:
  assumes "squareN N m" and "onBoard N c"
  shows "incrAt c (numGrid m) = Inr (numGrid (bump m (nat (snd c)) (nat (fst c))))"
proof -
  let ?r = "nat (snd c)" and ?k = "nat (fst c)"
  have r: "?r < length m" and k: "?k < length (m ! ?r)"
    using assms by (auto simp add: squareN_def onBoard_def)
  have "numGrid m ! ?r = map Num (m ! ?r)"
    using r by (simp add: numGrid_def)
  then show ?thesis
    using r k assms(2)
    by (simp add: incrAt_def incrSlot_def onBoard_def bump_def numGrid_def map_update Let_def)
qed

lemma incrAt_error: "incrAt c g = Inl e \<Longrightarrow> e = TypeError"
  by (auto simp add: incrAt_def incrSlot_def Let_def split: if_splits)

lemma incrAt_rows:
  "incrAt c g = Inr g' \<Longrightarrow> length g' = length g \<and> 0 \<le> snd c \<and> snd c < int (length g)"
  by (auto simp add: incrAt_def incrSlot_def Let_def split: if_splits)

lemma forEach_incrAt_error: "forEach incrAt cs g = Inl e \<Longrightarrow> e = TypeError"
  by (induction cs arbitrary: g) (auto split: sum.splits dest: incrAt_error)

lemma forEach_incrAt_rows:
  "forEach incrAt cs g = Inr g' \<Longrightarrow>
     length g' = length g \<and> (\<forall>c \<in> set cs. 0 \<le> snd c \<and> snd c < int (length g))"
proof (induction cs arbitrary: g)
  case Nil
  then show ?case by simp
next
  case (Cons c cs)
  then obtain g1 where g1: "incrAt c g = Inr g1" and rest: "forEach incrAt cs g1 = Inr g'"
    by (auto split: sum.splits)
  from incrAt_rows [OF g1] Cons.IH [OF rest] show ?case by auto
qed


subsection \<open>Population and scan\<close>

lemma cell_eq_iff:
  assumes "onBoard N c"
  shows "(c = (int k, int r)) \<longleftrightarrow> (r = nat (snd c) \<and> k = nat (fst c))"
  using assms by (cases c) (auto simp add: onBoard_def)

lemma forEach_incrAt_numGrid:
  assumes "squareN N m" and "\<forall>c \<in> set cs. onBoard N c"
  shows "\<exists>m'. forEach incrAt cs (numGrid m) = Inr (numGrid m') \<and> squareN N m' \<and>
           gridSum m' = gridSum m + length cs \<and>
           (\<forall>r < N. \<forall>k < N. m' ! r ! k = m ! r ! k + count_list cs (int k, int r))"
  using assms
proof (induction cs arbitrary: m)
  case Nil
  then have "forEach incrAt [] (numGrid m) = Inr (numGrid m) \<and> squareN N m \<and>
      gridSum m = gridSum m + length ([] :: (int \<times> int) list) \<and>
      (\<forall>r < N. \<forall>k < N. m ! r ! k = m ! r ! k + count_list [] (int k, int r))"
    by simp
  then show ?case by blast
next
  case (Cons c cs)
  let ?r = "nat (snd c)" and ?k = "nat (fst c)"
  let ?m1 = "bump m ?r ?k"
  have c: "onBoard N c" using Cons.prems(2) by simp
  have r: "?r < N" and k: "?k < N"
    using c by (auto simp add: onBoard_def)
  have step: "incrAt c (numGrid m) = Inr (numGrid ?m1)"
    using Cons.prems(1) c by (rule incrAt_numGrid)
  have sq1: "squareN N ?m1"
    using Cons.prems(1) by (rule squareN_bump)
  have tot1: "gridSum ?m1 = gridSum m + 1"
    using Cons.prems(1) r k by (intro gridSum_bump) (auto simp add: squareN_def)
  from Cons.IH [OF sq1] Cons.prems(2)
  obtain m' where m': "forEach incrAt cs (numGrid ?m1) = Inr (numGrid m')" "squareN N m'"
      "gridSum m' = gridSum ?m1 + length cs"
      "\<forall>r < N. \<forall>k < N. m' ! r ! k = ?m1 ! r ! k + count_list cs (int k, int r)"
    by auto
  have "\<forall>r' < N. \<forall>k' < N. m' ! r' ! k' = m ! r' ! k' + count_list (c # cs) (int k', int r')"
  proof (intro allI impI)
    fix r' k' assume b: "r' < N" "k' < N"
    have "m' ! r' ! k' = ?m1 ! r' ! k' + count_list cs (int k', int r')"
      using m'(4) b by simp
    also have "?m1 ! r' ! k' = m ! r' ! k' + (if r' = ?r \<and> k' = ?k then 1 else 0)"
      using Cons.prems(1) r k b by (rule nth_bump)
    finally show "m' ! r' ! k' = m ! r' ! k' + count_list (c # cs) (int k', int r')"
      using cell_eq_iff [OF c, of k' r'] by auto
  qed
  then show ?case
    using step m'(1,2,3) tot1 by auto
qed

lemma scanRow_ok:
  "\<forall>x \<in> set xs. x \<le> 1 \<Longrightarrow> scanRow (map Num xs) j i occ = Inr (occ + sum_list xs)"
  by (induction xs arbitrary: j occ) auto

lemma scanRow_overlap:
  "\<exists>x \<in> set xs. 1 < x \<Longrightarrow>
     \<exists>k < length xs. scanRow (map Num xs) j i occ = Inl (Overlapping (j + k) i) \<and> 1 < xs ! k"
proof (induction xs arbitrary: j occ)
  case Nil
  then show ?case by simp
next
  case (Cons x xs)
  show ?case
  proof (cases "1 < x")
    case True
    then have "scanRow (map Num (x # xs)) j i occ = Inl (Overlapping (j + 0) i) \<and> 1 < (x # xs) ! 0"
      by simp
    then show ?thesis by blast
  next
    case False
    then have "\<exists>y \<in> set xs. 1 < y" using Cons.prems by auto
    from Cons.IH [OF this, of "Suc j" "if Num x \<noteq> Num 0 then occ + 1 else occ"]
    obtain k where "k < length xs"
      "scanRow (map Num xs) (Suc j) i (if Num x \<noteq> Num 0 then occ + 1 else occ)
         = Inl (Overlapping (Suc j + k) i)" "1 < xs ! k"
      by blast
    then have "Suc k < length (x # xs) \<and>
        scanRow (map Num (x # xs)) j i occ = Inl (Overlapping (j + Suc k) i) \<and> 1 < (x # xs) ! Suc k"
      using False by simp
    then show ?thesis by blast
  qed
qed

lemma scanGrid_ok:
  "\<forall>row \<in> set m. length row = N \<and> (\<forall>x \<in> set row. x \<le> 1) \<Longrightarrow>
     scanGrid N (numGrid m) i occ = Inr (occ + gridSum m)"
  by (induction m arbitrary: i occ) (auto simp add: numGrid_def gridSum_def scanRow_ok)

lemma scanGrid_overlap:
  assumes "\<forall>row \<in> set m. length row = N" and "\<exists>row \<in> set m. \<exists>x \<in> set row. 1 < x"
  shows "\<exists>r < length m. \<exists>k < N.
           scanGrid N (numGrid m) i occ = Inl (Overlapping k (i + r)) \<and> 1 < m ! r ! k"
  using assms
proof (induction m arbitrary: i occ)
  case Nil
  then show ?case by simp
next
  case (Cons row m)
  have len: "length row = N" using Cons.prems(1) by simp
  show ?case
  proof (cases "\<exists>x \<in> set row. 1 < x")
    case True
    from scanRow_overlap [OF this, of 0 i occ]
    obtain k where "k < length row" "scanRow (map Num row) 0 i occ = Inl (Overlapping k i)"
      "1 < row ! k" by auto
    then have "0 < length (row # m) \<and> k < N \<and>
        scanGrid N (numGrid (row # m)) i occ = Inl (Overlapping k (i + 0)) \<and> 1 < (row # m) ! 0 ! k"
      using len by (simp add: numGrid_def)
    then show ?thesis by blast
  next
    case False
    then have row: "scanRow (map Num row) 0 i occ = Inr (occ + sum_list row)"
      by (intro scanRow_ok) (auto simp add: not_less)
    have "\<exists>row \<in> set m. \<exists>x \<in> set row. 1 < x" using Cons.prems(2) False by auto
    moreover have "\<forall>row \<in> set m. length row = N" using Cons.prems(1) by simp
    ultimately obtain r k where "r < length m" "k < N"
      "scanGrid N (numGrid m) (Suc i) (occ + sum_list row) = Inl (Overlapping k (Suc i + r))"
      "1 < m ! r ! k"
      using Cons.IH [of "Suc i" "occ + sum_list row"] by blast
    then have "Suc r < length (row # m) \<and> k < N \<and>
        scanGrid N (numGrid (row # m)) i occ = Inl (Overlapping k (i + Suc r)) \<and>
        1 < (row # m) ! Suc r ! k"
      using len row by (simp add: numGrid_def)
    then show ?thesis by blast
  qed
qed


subsection \<open>Counting the ships on a cell\<close>

lemma distinct_shipCells: "distinct (shipCells n s)"
  by (auto simp add: shipCells_def distinct_map inj_on_def)

lemma distinct_entryCells: "distinct (entryCells e)"
  by (simp add: entryCells_def distinct_shipCells)

lemma count_list_distinct:
  "distinct xs \<Longrightarrow> count_list xs x = (if x \<in> set xs then 1 else 0)"
  by (induction xs) auto

lemma count_entryCells: "count_list (entryCells e) x = (if x \<in> set (entryCells e) then 1 else 0)"
  using distinct_entryCells [of e] by (rule count_list_distinct)

lemma count_allCells_pos:
  "0 < count_list (allCells p) x \<longleftrightarrow> (\<exists>e \<in> set p. x \<in> set (entryCells e))"
  using count_list_0_iff [of "allCells p" x] by (auto simp add: allCells_def)

lemma allCells_Cons: "allCells (e # p) = entryCells e @ allCells p"
  by (simp add: allCells_def)

lemma count_allCells_two:
  assumes "distinct (map fst p)"
  shows "2 \<le> count_list (allCells p) x \<longleftrightarrow>
         (\<exists>ea \<in> set p. \<exists>eb \<in> set p. fst ea \<noteq> fst eb \<and>
            x \<in> set (entryCells ea) \<and> x \<in> set (entryCells eb))"
  using assms
proof (induction p)
  case Nil
  then show ?case by (simp add: allCells_def)
next
  case (Cons e p)
  have IH: "2 \<le> count_list (allCells p) x \<longleftrightarrow>
         (\<exists>ea \<in> set p. \<exists>eb \<in> set p. fst ea \<noteq> fst eb \<and>
            x \<in> set (entryCells ea) \<and> x \<in> set (entryCells eb))"
    using Cons by simp
  have fresh: "\<forall>e' \<in> set p. fst e' \<noteq> fst e"
  proof
    fix e' assume "e' \<in> set p"
    then have "fst e' \<in> set (map fst p)" by simp
    moreover have "fst e \<notin> set (map fst p)" using Cons.prems by simp
    ultimately show "fst e' \<noteq> fst e" by metis
  qed
  have cnt: "count_list (allCells (e # p)) x
      = (if x \<in> set (entryCells e) then 1 else 0) + count_list (allCells p) x"
    by (simp add: allCells_Cons count_entryCells)
  show ?case
  proof
    assume two: "2 \<le> count_list (allCells (e # p)) x"
    show "\<exists>ea \<in> set (e # p). \<exists>eb \<in> set (e # p). fst ea \<noteq> fst eb \<and>
            x \<in> set (entryCells ea) \<and> x \<in> set (entryCells eb)"
    proof (cases "2 \<le> count_list (allCells p) x")
      case True
      then show ?thesis using IH by auto
    next
      case False
      then have "x \<in> set (entryCells e)" and "0 < count_list (allCells p) x"
        using two cnt by (auto split: if_splits)
      then obtain e' where "e' \<in> set p" "x \<in> set (entryCells e')"
        using count_allCells_pos by blast
      then show ?thesis
        using fresh \<open>x \<in> set (entryCells e)\<close> by auto
    qed
  next
    assume "\<exists>ea \<in> set (e # p). \<exists>eb \<in> set (e # p). fst ea \<noteq> fst eb \<and>
            x \<in> set (entryCells ea) \<and> x \<in> set (entryCells eb)"
    then obtain ea eb where ab: "ea \<in> set (e # p)" "eb \<in> set (e # p)" "fst ea \<noteq> fst eb"
        "x \<in> set (entryCells ea)" "x \<in> set (entryCells eb)"
      by blast
    show "2 \<le> count_list (allCells (e # p)) x"
    proof (cases "ea \<in> set p \<and> eb \<in> set p")
      case True
      then have "2 \<le> count_list (allCells p) x" using IH ab by blast
      then show ?thesis using cnt by simp
    next
      case False
      then have "x \<in> set (entryCells e)" and "\<exists>e' \<in> set p. x \<in> set (entryCells e')"
        using ab by auto
      then have "0 < count_list (allCells p) x" and "x \<in> set (entryCells e)"
        using count_allCells_pos by blast+
      then show ?thesis using cnt by simp
    qed
  qed
qed

lemma keyLength_sum: "sum keyLength (set schemaKeys) = 9"
  by (simp add: schemaKeys_simp keyLength_def)

lemma length_allCells:
  assumes "distinct (map fst p)" and "set (map fst p) = set schemaKeys"
  shows "length (allCells p) = 9"
proof -
  have "length (allCells p) = sum_list (map keyLength (map fst p))"
    by (simp add: allCells_def length_concat entryCells_def shipCells_def comp_def)
  also have "\<dots> = sum keyLength (set (map fst p))"
    using assms(1) by (rule sum_list_distinct_conv_sum_set)
  finally show ?thesis
    using assms(2) keyLength_sum by simp
qed

text \<open>What the population leaves in the grid when every cell of every ship is on the board.\<close>

lemma populate_on_board:
  assumes "set (map fst p) = set schemaKeys"
    and "\<forall>e \<in> set p. \<forall>c \<in> set (entryCells e). onBoard N c"
  shows "\<exists>m. forEach (\<lambda>(ship, shipData) grid.
                  populateGridWithShipData (shipSizeX ship) shipData grid)
                p (generateEmptyGridArray N) = Inr (numGrid m) \<and>
             squareN N m \<and> gridSum m = length (allCells p) \<and>
             (\<forall>r < N. \<forall>k < N. m ! r ! k = count_list (allCells p) (int k, int r))"
proof -
  have "\<forall>c \<in> set (allCells p). onBoard N c"
    using assms(2) by (auto simp add: allCells_def)
  from forEach_incrAt_numGrid [OF squareN_replicate this]
  obtain m where "forEach incrAt (allCells p) (numGrid (replicate N (replicate N 0))) = Inr (numGrid m)"
    "squareN N m" "gridSum m = gridSum (replicate N (replicate N 0)) + length (allCells p)"
    "\<forall>r < N. \<forall>k < N. m ! r ! k = replicate N (replicate N 0) ! r ! k + count_list (allCells p) (int k, int r)"
    by blast
  then show ?thesis
    using assms(1) by (auto simp add: populate_all empty_grid_num gridSum_replicate)
qed


subsection \<open>Acceptance, overlap and overhang\<close>

lemma ShipSchema_ok:
  "onBoard N (origin s) \<Longrightarrow> orientation s \<noteq> [] \<Longrightarrow> ShipSchema_validate N k s = []"
  by (auto simp add: ShipSchema_validate_def OriginItem_validate_def onBoard_def)

lemma schema_ok:
  assumes "distinct (map fst p)" and "set (map fst p) = set schemaKeys"
    and "\<forall>e \<in> set p. ShipSchema_validate N (fst e) (snd e) = []"
  shows "ShipsLockedSchema_validate N p = []"
proof -
  have "(case map_of p k of None \<Rightarrow> [AnyRequired k] | Some ship \<Rightarrow> ShipSchema_validate N k ship) = []"
    if "k \<in> set schemaKeys" for k
  proof -
    from that assms(2) obtain s where "(k, s) \<in> set p" by force
    then have "map_of p k = Some s" "ShipSchema_validate N k s = []"
      using assms(1,3) by auto
    then show ?thesis by simp
  qed
  moreover have "filter (\<lambda>key. key \<notin> set schemaKeys) (map fst p) = []"
    using assms(2) by (simp add: filter_empty_conv)
  ultimately show ?thesis
    by (simp add: ShipsLockedSchema_validate_def)
qed

lemma same_key_same_entry:
  assumes "distinct (map fst p)" and "ea \<in> set p" and "eb \<in> set p" and "fst ea = fst eb"
  shows "ea = eb"
  using assms by (meson distinct_map inj_on_def)

lemma grid_rows:
  assumes "squareN N m" and "\<forall>r < N. \<forall>k < N. P (m ! r ! k)"
  shows "\<forall>row \<in> set m. length row = N \<and> (\<forall>x \<in> set row. P x)"
proof (intro ballI conjI)
  fix row assume row: "row \<in> set m"
  then show len: "length row = N" using assms(1) by (simp add: squareN_def)
  fix x assume "x \<in> set row"
  then obtain k where k: "k < N" "x = row ! k"
    using len by (auto simp add: in_set_conv_nth)
  from row obtain r where "r < N" "row = m ! r"
    using assms(1) by (auto simp add: in_set_conv_nth squareN_def)
  then show "P x" using assms(2) k by simp
qed

lemma placement_accepted:
  assumes keys: "distinct (map fst p)" "set (map fst p) = set schemaKeys"
    and fields: "\<forall>e \<in> set p. onBoard N (origin (snd e)) \<and> orientation (snd e) \<noteq> []"
    and fit: "\<forall>e \<in> set p. \<forall>c \<in> set (entryCells e). onBoard N c"
    and apart: "\<forall>ea \<in> set p. \<forall>eb \<in> set p. ea \<noteq> eb \<longrightarrow>
                  set (entryCells ea) \<inter> set (entryCells eb) = {}"
  shows "validateShipPlacement N p = Inr p"
proof -
  have schema: "ShipsLockedSchema_validate N p = []"
    using keys fields by (intro schema_ok) (auto simp add: ShipSchema_ok)
  from populate_on_board [OF keys(2) fit]
  obtain m where m: "forEach (\<lambda>(ship, shipData) grid.
                  populateGridWithShipData (shipSizeX ship) shipData grid)
                p (generateEmptyGridArray N) = Inr (numGrid m)"
      "squareN N m" "gridSum m = length (allCells p)"
      "\<forall>r < N. \<forall>k < N. m ! r ! k = count_list (allCells p) (int k, int r)"
    by blast
  have le1: "count_list (allCells p) x \<le> 1" for x
  proof (rule ccontr)
    assume "\<not> count_list (allCells p) x \<le> 1"
    then have "2 \<le> count_list (allCells p) x" by simp
    then obtain ea eb where ab: "ea \<in> set p" "eb \<in> set p" "fst ea \<noteq> fst eb"
        and xa: "x \<in> set (entryCells ea)" and xb: "x \<in> set (entryCells eb)"
      using count_allCells_two [OF keys(1)] by blast
    from ab(3) have "ea \<noteq> eb" by auto
    with apart ab(1,2) have d: "set (entryCells ea) \<inter> set (entryCells eb) = {}"
      by simp
    from IntI [OF xa xb] show False
      unfolding d by (rule emptyE)
  qed
  have "\<forall>r < N. \<forall>k < N. m ! r ! k \<le> 1"
  proof (intro allI impI)
    fix r k assume "r < N" "k < N"
    then have "m ! r ! k = count_list (allCells p) (int k, int r)"
      using m(4) by blast
    then show "m ! r ! k \<le> 1"
      using le1 [of "(int k, int r)"] by (simp only:)
  qed
  with m(2) have "\<forall>row \<in> set m. length row = N \<and> (\<forall>x \<in> set row. x \<le> 1)"
    by (rule grid_rows)
  then have "scanGrid N (numGrid m) 0 0 = Inr (0 + gridSum m)"
    by (rule scanGrid_ok)
  then have "scanGrid N (numGrid m) 0 0 = Inr 9"
    using m(3) length_allCells [OF keys] by simp
  then show ?thesis
    using schema m(1) by (simp add: validateShipPlacement_def EXPECTED_9)
qed

text \<open>
  C4 (amended): for any payload that passes the schema, whose ships all lie fully
  within the board and in which two ships occupy a common cell,
  \<open>validateShipPlacement\<close> fails with the overlap error, and the coordinate it names
  is a cell shared by two ships of the payload (the first such cell of the row by row
  scan).
\<close>

theorem C4_overlap_on_board_reported:
  assumes schema: "ShipsLockedSchema_validate N p = []" and keys: "distinct (map fst p)"
    and fit: "\<forall>e \<in> set p. \<forall>c \<in> set (entryCells e). onBoard N c"
    and e1: "e1 \<in> set p" and e2: "e2 \<in> set p" and ne: "e1 \<noteq> e2"
    and share: "set (entryCells e1) \<inter> set (entryCells e2) \<noteq> {}"
  shows "\<exists>k r ea eb. validateShipPlacement N p = Inl (Overlapping k r) \<and>
           ea \<in> set p \<and> eb \<in> set p \<and> fst ea \<noteq> fst eb \<and>
           (int k, int r) \<in> set (entryCells ea) \<and> (int k, int r) \<in> set (entryCells eb)"
proof -
  from populate_on_board [OF schema_keys [OF schema] fit]
  obtain m where m: "forEach (\<lambda>(ship, shipData) grid.
                  populateGridWithShipData (shipSizeX ship) shipData grid)
                p (generateEmptyGridArray N) = Inr (numGrid m)"
      "squareN N m" "gridSum m = length (allCells p)"
      "\<forall>r < N. \<forall>k < N. m ! r ! k = count_list (allCells p) (int k, int r)"
    by blast
  from share obtain x where x: "x \<in> set (entryCells e1)" "x \<in> set (entryCells e2)" by blast
  have "fst e1 \<noteq> fst e2"
    using same_key_same_entry [OF keys e1 e2] ne by blast
  then have two: "2 \<le> count_list (allCells p) x"
    using count_allCells_two [OF keys] e1 e2 x by blast
  have xb: "onBoard N x" using fit e1 x(1) by blast
  let ?r0 = "nat (snd x)" and ?k0 = "nat (fst x)"
  have b0: "?r0 < N" "?k0 < N" "x = (int ?k0, int ?r0)"
    using xb by (auto simp add: onBoard_def)
  then have "1 < m ! ?r0 ! ?k0"
    using m(4) two by (metis Suc_1 less_eq_Suc_le)
  moreover have "m ! ?r0 \<in> set m" "m ! ?r0 ! ?k0 \<in> set (m ! ?r0)"
    using m(2) b0 by (auto simp add: squareN_def)
  ultimately have ex: "\<exists>row \<in> set m. \<exists>v \<in> set row. 1 < v" by blast
  have rows: "\<forall>row \<in> set m. length row = N"
    using m(2) by (simp add: squareN_def)
  from scanGrid_overlap [OF rows ex, of 0 0]
  obtain r k where rk: "r < length m" "k < N"
      "scanGrid N (numGrid m) 0 0 = Inl (Overlapping k r)" "1 < m ! r ! k"
    by auto
  then have "r < N" using m(2) by (simp add: squareN_def)
  then have "2 \<le> count_list (allCells p) (int k, int r)"
    using m(4) rk(2,4) by simp
  then obtain ea eb where "ea \<in> set p" "eb \<in> set p" "fst ea \<noteq> fst eb"
      "(int k, int r) \<in> set (entryCells ea)" "(int k, int r) \<in> set (entryCells eb)"
    using count_allCells_two [OF keys] by blast
  moreover have "validateShipPlacement N p = Inl (Overlapping k r)"
    using schema m(1) rk(3) by (simp add: validateShipPlacement_def)
  ultimately show ?thesis by blast
qed

text \<open>
  C1: a ship whose origin is within the board and whose extent exceeds \<open>N - 1\<close> must
  make \<open>validateShipPlacement\<close> fail with the over-the-edge error. For a ship that
  is not horizontal the code does not: in every payload that passes the schema, such
  a ship makes the population read a row that does not exist, and the result is the
  \<open>TypeError\<close> of that read, whatever the other ships are.
\<close>

theorem C1_vertical_overhang_TypeError:
  assumes schema: "ShipsLockedSchema_validate N p = []" and keys: "distinct (map fst p)"
    and e: "(k, s) \<in> set p" and vert: "orientation s \<noteq> Horizontal"
    and over: "int N - 1 < snd (origin s) + int (keyLength k) - 1"
  shows "validateShipPlacement N p = Inl TypeError"
proof -
  have org: "0 \<le> snd (origin s)" "snd (origin s) \<le> int N - 1"
    using schema_origin [OF schema_entry [OF schema keys e]] by auto
  let ?i = "nat (int N - snd (origin s))"
  have i: "?i < keyLength k" using over org by linarith
  have mem: "?i \<in> {0..<keyLength k}" using i by simp
  have "(fst (origin s), snd (origin s) + int ?i)
      \<in> (\<lambda>i. (fst (origin s), snd (origin s) + int i)) ` {0..<keyLength k}"
    by (rule image_eqI [where x = "?i"]) (rule refl, rule mem)
  moreover have "set (shipCells (keyLength k) s)
      = (\<lambda>i. (fst (origin s), snd (origin s) + int i)) ` {0..<keyLength k}"
    using vert by (simp add: shipCells_def)
  ultimately have "(fst (origin s), snd (origin s) + int ?i) \<in> set (shipCells (keyLength k) s)"
    by (simp only:)
  moreover have "snd (origin s) + int ?i = int N" using org by simp
  ultimately have "(fst (origin s), int N) \<in> set (entryCells (k, s))"
    by (simp add: entryCells_def)
  then have cell: "(fst (origin s), int N) \<in> set (allCells p)"
    using e by (auto simp add: allCells_def)
  have pop: "forEach (\<lambda>(ship, shipData) grid.
                  populateGridWithShipData (shipSizeX ship) shipData grid)
                p (generateEmptyGridArray N) = forEach incrAt (allCells p) (generateEmptyGridArray N)"
    using schema_keys [OF schema] by (intro populate_all) simp
  have "forEach incrAt (allCells p) (generateEmptyGridArray N) = Inl TypeError"
  proof (cases "forEach incrAt (allCells p) (generateEmptyGridArray N)")
    case (Inl err)
    then show ?thesis using forEach_incrAt_error by blast
  next
    case (Inr g')
    from forEach_incrAt_rows [OF this] cell
    have "int N < int (length (generateEmptyGridArray N))" by force
    then show ?thesis by (simp add: generateEmptyGridArray_def)
  qed
  then show ?thesis
    using schema pop by (simp add: validateShipPlacement_def)
qed

theorem C1_vertical_overhang_TypeError_witness:
  "validateShipPlacement 10
     [(''Battleship'', \<lparr>origin = (0, 8), orientation = ''vertical''\<rparr>),
      (''Destroyer'', \<lparr>origin = (2, 0), orientation = ''horizontal''\<rparr>),
      (''Submarine'', \<lparr>origin = (2, 1), orientation = ''horizontal''\<rparr>)]
   = Inl TypeError"
proof -
  let ?p = "[(''Battleship'', \<lparr>origin = (0, 8), orientation = ''vertical''\<rparr>),
      (''Destroyer'', \<lparr>origin = (2, 0), orientation = ''horizontal''\<rparr>),
      (''Submarine'', \<lparr>origin = (2, 1), orientation = ''horizontal''\<rparr>)]"
  have "ShipsLockedSchema_validate 10 ?p = []" by code_simp
  moreover have "distinct (map fst ?p)" by simp
  moreover have "(''Battleship'', \<lparr>origin = (0, 8), orientation = ''vertical''\<rparr>) \<in> set ?p"
    by simp
  moreover have "orientation \<lparr>origin = (0, 8), orientation = ''vertical''\<rparr> \<noteq> Horizontal"
    by (simp add: Horizontal_def)
  moreover have "int 10 - 1 < snd (origin \<lparr>origin = (0, 8), orientation = ''vertical''\<rparr>)
      + int (keyLength ''Battleship'') - 1"
    by (simp add: keyLength_def)
  ultimately show ?thesis
    by (rule C1_vertical_overhang_TypeError)
qed

text \<open>
  The horizontal counterpart, at the example of the specification (\<open>N = 10\<close>, the
  battleship at origin \<open>(8, 0)\<close>): the row grows past \<open>N\<close> and the scan reports the
  ship over the edge.
\<close>

lemma horizontal_overhang_example:
  "validateShipPlacement 10
     [(''Battleship'', \<lparr>origin = (8, 0), orientation = ''horizontal''\<rparr>),
      (''Destroyer'', \<lparr>origin = (0, 1), orientation = ''horizontal''\<rparr>),
      (''Submarine'', \<lparr>origin = (0, 2), orientation = ''vertical''\<rparr>)]
   = Inl OverEdge"
  by code_simp

text \<open>
  C3: a payload with exactly one placement per ship type, origins on the board and an
  orientation of the enum, whose ships all lie fully within the board and share no
  cell, is returned as it is, with no error.
\<close>

theorem C3_valid_placement_returned:
  assumes "distinct (map fst p)" and "set (map fst p) = set schemaKeys"
    and "\<forall>e \<in> set p. onBoard N (origin (snd e)) \<and> orientation (snd e) \<in> {Vertical, Horizontal}"
    and "\<forall>e \<in> set p. \<forall>c \<in> set (entryCells e). onBoard N c"
    and "\<forall>ea \<in> set p. \<forall>eb \<in> set p. ea \<noteq> eb \<longrightarrow>
           set (entryCells ea) \<inter> set (entryCells eb) = {}"
  shows "validateShipPlacement N p = Inr p"
proof -
  have "\<forall>e \<in> set p. onBoard N (origin (snd e)) \<and> orientation (snd e) \<noteq> []"
    using assms(3) by (auto simp add: Vertical_def Horizontal_def)
  with assms(1,2) show ?thesis
    using assms(4,5) by (rule placement_accepted)
qed

theorem C3_valid_placement_returned_witness:
  "validateShipPlacement 10
     [(''Submarine'', \<lparr>origin = (0, 2), orientation = ''vertical''\<rparr>),
      (''Battleship'', \<lparr>origin = (0, 0), orientation = ''horizontal''\<rparr>),
      (''Destroyer'', \<lparr>origin = (7, 9), orientation = ''horizontal''\<rparr>)]
   = Inr
     [(''Submarine'', \<lparr>origin = (0, 2), orientation = ''vertical''\<rparr>),
      (''Battleship'', \<lparr>origin = (0, 0), orientation = ''horizontal''\<rparr>),
      (''Destroyer'', \<lparr>origin = (7, 9), orientation = ''horizontal''\<rparr>)]"
proof -
  let ?p = "[(''Submarine'', \<lparr>origin = (0, 2), orientation = ''vertical''\<rparr>),
      (''Battleship'', \<lparr>origin = (0, 0), orientation = ''horizontal''\<rparr>),
      (''Destroyer'', \<lparr>origin = (7, 9), orientation = ''horizontal''\<rparr>)]"
  have "distinct (map fst ?p)" by simp
  moreover have "set (map fst ?p) = set schemaKeys"
    by (auto simp add: schemaKeys_simp)
  moreover have "\<forall>e \<in> set ?p. onBoard 10 (origin (snd e)) \<and>
      orientation (snd e) \<in> {Vertical, Horizontal}"
    by (simp add: onBoard_def Vertical_def Horizontal_def)
  moreover have "\<forall>e \<in> set ?p. \<forall>c \<in> set (entryCells e). onBoard 10 c"
    by code_simp
  moreover have "\<forall>ea \<in> set ?p. \<forall>eb \<in> set ?p. ea \<noteq> eb \<longrightarrow>
      set (entryCells ea) \<inter> set (entryCells eb) = {}"
    by code_simp
  ultimately show ?thesis
    by (rule C3_valid_placement_returned)
qed

text \<open>
  C4 (as stated): every payload that passes the schema and in which two ships share
  a cell fails with the overlap error. The scan goes row by row and stops at the
  first finding: here the destroyer and the submarine share the cells \<open>(0, 5)\<close> and
  \<open>(1, 5)\<close>, and the battleship has made row \<open>0\<close> too long, which is found first.
\<close>

theorem C4_over_edge_reported_first_counterexample:
  "ShipsLockedSchema_validate 10
     [(''Battleship'', \<lparr>origin = (8, 0), orientation = ''horizontal''\<rparr>),
      (''Destroyer'', \<lparr>origin = (0, 5), orientation = ''horizontal''\<rparr>),
      (''Submarine'', \<lparr>origin = (0, 5), orientation = ''horizontal''\<rparr>)] = [] \<and>
   (0, 5) \<in> set (entryCells (''Destroyer'', \<lparr>origin = (0, 5), orientation = ''horizontal''\<rparr>)) \<and>
   (0, 5) \<in> set (entryCells (''Submarine'', \<lparr>origin = (0, 5), orientation = ''horizontal''\<rparr>)) \<and>
   validateShipPlacement 10
     [(''Battleship'', \<lparr>origin = (8, 0), orientation = ''horizontal''\<rparr>),
      (''Destroyer'', \<lparr>origin = (0, 5), orientation = ''horizontal''\<rparr>),
      (''Submarine'', \<lparr>origin = (0, 5), orientation = ''horizontal''\<rparr>)] = Inl OverEdge"
  by code_simp

theorem C4_overlap_on_board_reported_witness:
  "\<exists>k r ea eb.
     validateShipPlacement 10
       [(''Battleship'', \<lparr>origin = (0, 0), orientation = ''horizontal''\<rparr>),
        (''Destroyer'', \<lparr>origin = (2, 0), orientation = ''vertical''\<rparr>),
        (''Submarine'', \<lparr>origin = (5, 5), orientation = ''vertical''\<rparr>)] = Inl (Overlapping k r) \<and>
     ea \<in> set [(''Battleship'', \<lparr>origin = (0, 0), orientation = ''horizontal''\<rparr>),
        (''Destroyer'', \<lparr>origin = (2, 0), orientation = ''vertical''\<rparr>),
        (''Submarine'', \<lparr>origin = (5, 5), orientation = ''vertical''\<rparr>)] \<and>
     eb \<in> set [(''Battleship'', \<lparr>origin = (0, 0), orientation = ''horizontal''\<rparr>),
        (''Destroyer'', \<lparr>origin = (2, 0), orientation = ''vertical''\<rparr>),
        (''Submarine'', \<lparr>origin = (5, 5), orientation = ''vertical''\<rparr>)] \<and>
     fst ea \<noteq> fst eb \<and>
     (int k, int r) \<in> set (entryCells ea) \<and> (int k, int r) \<in> set (entryCells eb)"
proof -
  let ?b = "(''Battleship'', \<lparr>origin = (0, 0), orientation = ''horizontal''\<rparr>)"
  let ?d = "(''Destroyer'', \<lparr>origin = (2, 0), orientation = ''vertical''\<rparr>)"
  let ?p = "[?b, ?d, (''Submarine'', \<lparr>origin = (5, 5), orientation = ''vertical''\<rparr>)]"
  have "ShipsLockedSchema_validate 10 ?p = []" by code_simp
  moreover have "distinct (map fst ?p)" by simp
  moreover have "\<forall>e \<in> set ?p. \<forall>c \<in> set (entryCells e). onBoard 10 c"
    by code_simp
  moreover have "?b \<in> set ?p" and "?d \<in> set ?p" and "?b \<noteq> ?d"
    by simp_all
  moreover have "set (entryCells ?b) \<inter> set (entryCells ?d) \<noteq> {}"
    by code_simp
  ultimately show ?thesis
    by (rule C4_overlap_on_board_reported)
qed

text \<open>
  C5: a payload with a bad orientation value must fail with the schema error. With
  \<open>Joi.string().allow(..)\<close> the schema takes every non-empty string: the payload below,
  whose battleship has the orientation 'diagonal', passes the schema, is laid out as
  if vertical, and is returned without error.
\<close>

theorem C5_bad_orientation_accepted:
  "ShipsLockedSchema_validate 10
     [(''Battleship'', \<lparr>origin = (0, 0), orientation = ''diagonal''\<rparr>),
      (''Destroyer'', \<lparr>origin = (1, 0), orientation = ''vertical''\<rparr>),
      (''Submarine'', \<lparr>origin = (2, 0), orientation = ''vertical''\<rparr>)] = [] \<and>
   validateShipPlacement 10
     [(''Battleship'', \<lparr>origin = (0, 0), orientation = ''diagonal''\<rparr>),
      (''Destroyer'', \<lparr>origin = (1, 0), orientation = ''vertical''\<rparr>),
      (''Submarine'', \<lparr>origin = (2, 0), orientation = ''vertical''\<rparr>)]
   = Inr
     [(''Battleship'', \<lparr>origin = (0, 0), orientation = ''diagonal''\<rparr>),
      (''Destroyer'', \<lparr>origin = (1, 0), orientation = ''vertical''\<rparr>),
      (''Submarine'', \<lparr>origin = (2, 0), orientation = ''vertical''\<rparr>)]"
  by code_simp

text \<open>
  The other violations are collected, all of them: a missing ship type, an unknown
  key, origin components out of range and an empty orientation in one payload.
\<close>

lemma schema_violations_example:
  "validateShipPlacement 10
     [(''Battleship'', \<lparr>origin = (- 1, 10), orientation = []\<rparr>),
      (''Destroyr'', \<lparr>origin = (2, 0), orientation = ''horizontal''\<rparr>),
      (''Submarine'', \<lparr>origin = (0, 2), orientation = ''vertical''\<rparr>)]
   = Inl (SchemaError
       [NumberMin ''Battleship'' 0, NumberMax ''Battleship'' 1, StringEmpty ''Battleship'',
        AnyRequired ''Destroyer'', ObjectUnknown ''Destroyr''])"
  by code_simp

end
